theory Spec2Isabelle
  imports Main "HOL-Library.Monad_Syntax"
begin

section \<open>Strings\<close>

text \<open>
  A Go string is a sequence of bytes; it is modelled as a \<open>string\<close> (a list of 8-bit
  characters). The functions of package \<open>strings\<close>, \<open>unicode\<close> and \<open>regexp\<close> that the
  program calls are written out below. The model is exact on ASCII text. Where the
  library decodes runes, it is not followed beyond ASCII: every byte from 0x80 on is left
  unclassified and unchanged. So, unlike the library, \<open>TrimSpace\<close> and \<open>Fields\<close> do not
  take U+0085, U+00A0 and the other Unicode spaces for white space; \<open>ToUpper\<close>, \<open>Title\<close>
  and the first letter in \<open>toGoFieldName\<close> do not change the case of a letter outside
  ASCII; and \<open>toGoFieldName\<close> keeps a byte that is not valid UTF-8, where the conversion
  to runes and back in the source puts U+FFFD.
\<close>

definition DQ :: string where
  "DQ = [CHR 0x22]"

definition BQ :: string where
  "BQ = [CHR 0x60]"

definition TAB :: string where
  "TAB = [CHR 0x09]"

definition NL :: string where
  "NL = [CHR 0x0A]"

text \<open>\<open>unicode.IsSpace\<close> on ASCII: tab, line feed, vertical tab, form feed, carriage return, space.\<close>

definition isSpace :: "char \<Rightarrow> bool" where
  "isSpace c \<longleftrightarrow> c = CHR 0x09 \<or> c = CHR 0x0A \<or> c = CHR 0x0B \<or> c = CHR 0x0C \<or> c = CHR 0x0D \<or> c = CHR 0x20"

fun HasPrefix :: "string \<Rightarrow> string \<Rightarrow> bool" where
  "HasPrefix s [] = True"
| "HasPrefix [] (c # p) = False"
| "HasPrefix (x # s) (c # p) = (x = c \<and> HasPrefix s p)"

definition HasSuffix :: "string \<Rightarrow> string \<Rightarrow> bool" where
  "HasSuffix s p = HasPrefix (rev s) (rev p)"

fun Contains :: "string \<Rightarrow> string \<Rightarrow> bool" where
  "Contains [] sub = (sub = [])"
| "Contains (x # s) sub = (HasPrefix (x # s) sub \<or> Contains s sub)"

definition TrimSpace :: "string \<Rightarrow> string" where
  "TrimSpace s = rev (dropWhile isSpace (rev (dropWhile isSpace s)))"

definition Trim :: "string \<Rightarrow> string \<Rightarrow> string" where
  "Trim s cutset = rev (dropWhile (\<lambda>c. c \<in> set cutset) (rev (dropWhile (\<lambda>c. c \<in> set cutset) s)))"

definition TrimPrefix :: "string \<Rightarrow> string \<Rightarrow> string" where
  "TrimPrefix s p = (if HasPrefix s p then drop (length p) s else s)"

definition TrimSuffix :: "string \<Rightarrow> string \<Rightarrow> string" where
  "TrimSuffix s p = (if HasSuffix s p then take (length s - length p) s else s)"

text \<open>\<open>strings.Fields\<close>: the maximal runs of non-space characters, in order.\<close>

fun fieldsFrom :: "string \<Rightarrow> string \<Rightarrow> string list" where
  "fieldsFrom cur [] = (if cur = [] then [] else [cur])"
| "fieldsFrom cur (c # cs) =
     (if isSpace c then (if cur = [] then fieldsFrom [] cs else cur # fieldsFrom [] cs)
      else fieldsFrom (cur @ [c]) cs)"

definition Fields :: "string \<Rightarrow> string list" where
  "Fields s = fieldsFrom [] s"

text \<open>
  \<open>strings.FieldsFunc\<close>: as \<open>Fields\<close>, with the separator given by a predicate.
\<close>

fun fieldsFuncFrom :: "(char \<Rightarrow> bool) \<Rightarrow> string \<Rightarrow> string \<Rightarrow> string list" where
  "fieldsFuncFrom f cur [] = (if cur = [] then [] else [cur])"
| "fieldsFuncFrom f cur (c # cs) =
     (if f c then (if cur = [] then fieldsFuncFrom f [] cs else cur # fieldsFuncFrom f [] cs)
      else fieldsFuncFrom f (cur @ [c]) cs)"

definition FieldsFunc :: "string \<Rightarrow> (char \<Rightarrow> bool) \<Rightarrow> string list" where
  "FieldsFunc s f = fieldsFuncFrom f [] s"

text \<open>
  \<open>regexp.Split(s, -1)\<close> for a pattern that is one character class: the pieces between
  the separators, empty pieces included; the empty string gives one empty piece.
\<close>

fun splitFrom :: "(char \<Rightarrow> bool) \<Rightarrow> string \<Rightarrow> string \<Rightarrow> string list" where
  "splitFrom sep cur [] = [cur]"
| "splitFrom sep cur (c # cs) =
     (if sep c then cur # splitFrom sep [] cs else splitFrom sep (cur @ [c]) cs)"

definition SplitClass :: "(char \<Rightarrow> bool) \<Rightarrow> string \<Rightarrow> string list" where
  "SplitClass sep s = splitFrom sep [] s"

text \<open>\<open>ReplaceAllString(s, "")\<close> for a pattern that is one character class.\<close>

definition RemoveClass :: "(char \<Rightarrow> bool) \<Rightarrow> string \<Rightarrow> string" where
  "RemoveClass cls s = filter (\<lambda>c. \<not> cls c) s"

definition isLower :: "char \<Rightarrow> bool" where
  "isLower c \<longleftrightarrow> 97 \<le> (of_char c :: nat) \<and> (of_char c :: nat) \<le> 122"

definition isUpper :: "char \<Rightarrow> bool" where
  "isUpper c \<longleftrightarrow> 65 \<le> (of_char c :: nat) \<and> (of_char c :: nat) \<le> 90"

definition isDigit :: "char \<Rightarrow> bool" where
  "isDigit c \<longleftrightarrow> 48 \<le> (of_char c :: nat) \<and> (of_char c :: nat) \<le> 57"

text \<open>\<open>unicode.ToUpper\<close> (and \<open>unicode.ToTitle\<close>) on ASCII.\<close>

definition toUpperChar :: "char \<Rightarrow> char" where
  "toUpperChar c = (if isLower c then char_of (of_char c - (32 :: nat)) else c)"

definition ToUpper :: "string \<Rightarrow> string" where
  "ToUpper s = map toUpperChar s"

text \<open>
  \<open>strings.Title\<close>: the first letter of every word is mapped to title case; a word starts
  after a separator, and among the ASCII characters everything but letters, digits and
  the underscore is a separator.
\<close>

definition isSeparator :: "char \<Rightarrow> bool" where
  "isSeparator c \<longleftrightarrow>
     (if (of_char c :: nat) \<le> 127
      then \<not> (isDigit c \<or> isLower c \<or> isUpper c \<or> c = CHR ''_'')
      else False)"

fun titleFrom :: "char \<Rightarrow> string \<Rightarrow> string" where
  "titleFrom prev [] = []"
| "titleFrom prev (c # cs) = (if isSeparator prev then toUpperChar c else c) # titleFrom c cs"

definition Title :: "string \<Rightarrow> string" where
  "Title s = titleFrom (CHR '' '') s"

section \<open>Regular expressions\<close>

text \<open>
  Package \<open>regexp\<close> returns the leftmost match and, among the matches that start there, the
  one a backtracking search finds first. A pattern is modelled as a function from the
  remaining input to the list of its possible matches in the order in which the
  backtracker tries them, each with the input left over; sequencing is the bind of the
  list monad, and the match found is the head of the list at the first starting position
  where the list is not empty.
\<close>

type_synonym 'a rx = "string \<Rightarrow> ('a \<times> string) list"

definition rxLit :: "string \<Rightarrow> unit rx" where
  "rxLit p s = (if HasPrefix s p then [((), drop (length p) s)] else [])"

text \<open>\<open>c+\<close> for a character class: the longest run first.\<close>

definition rxPlus :: "(char \<Rightarrow> bool) \<Rightarrow> string rx" where
  "rxPlus cls s = map (\<lambda>n. (take n s, drop n s)) (rev [1 ..< Suc (length (takeWhile cls s))])"

text \<open>\<open>c+?\<close> for a character class: the shortest run first.\<close>

definition rxPlusLazy :: "(char \<Rightarrow> bool) \<Rightarrow> string rx" where
  "rxPlusLazy cls s = map (\<lambda>n. (take n s, drop n s)) [1 ..< Suc (length (takeWhile cls s))]"

fun rxFind :: "'a rx \<Rightarrow> string \<Rightarrow> 'a option" where
  "rxFind r [] = (case r [] of [] \<Rightarrow> None | (x, _) # _ \<Rightarrow> Some x)"
| "rxFind r (c # cs) = (case r (c # cs) of [] \<Rightarrow> rxFind r cs | (x, _) # _ \<Rightarrow> Some x)"

text \<open>The classes \<open>\s\<close>, \<open>\w\<close>, \<open>[\w-]\<close> and \<open>.\<close> of the syntax of package \<open>regexp\<close>.\<close>

definition rxSpace :: "char \<Rightarrow> bool" where
  "rxSpace c \<longleftrightarrow> c = CHR 0x09 \<or> c = CHR 0x0A \<or> c = CHR 0x0C \<or> c = CHR 0x0D \<or> c = CHR 0x20"

definition rxWord :: "char \<Rightarrow> bool" where
  "rxWord c \<longleftrightarrow> isDigit c \<or> isUpper c \<or> isLower c \<or> c = CHR ''_''"

definition rxWordDash :: "char \<Rightarrow> bool" where
  "rxWordDash c \<longleftrightarrow> rxWord c \<or> c = CHR ''-''"

definition rxDot :: "char \<Rightarrow> bool" where
  "rxDot c \<longleftrightarrow> c \<noteq> CHR 0x0A"

section \<open>The parser's data\<close>

record DTDAttribute =
  AttrName :: string
  Type :: string
  DefaultValue :: string
  Required :: bool

record DTDElement =
  Name :: string
  Content :: string
  Attributes :: "DTDAttribute list"

record ParseResult =
  Elements :: "string \<rightharpoonup> DTDElement"
  Order :: "string list"

record DTDParser =
  elements :: "string \<rightharpoonup> DTDElement"
  attributes :: "string \<rightharpoonup> DTDAttribute list"
  elementOrder :: "string list"
  entities :: "string \<rightharpoonup> string"

definition NewDTDParser :: DTDParser where
  "NewDTDParser = \<lparr>elements = Map.empty, attributes = Map.empty, elementOrder = [], entities = Map.empty\<rparr>"

section \<open>Declarations\<close>

text \<open>The pattern \<^verbatim>\<open><!ENTITY\s+%\s+(\w+)\s+"(.+?)">\<close> at one starting position.\<close>

definition reEntity :: "(string \<times> string) rx" where
  "reEntity s = do {
     (_, s1) \<leftarrow> rxLit ''<!ENTITY'' s;
     (_, s2) \<leftarrow> rxPlus rxSpace s1;
     (_, s3) \<leftarrow> rxLit ''%'' s2;
     (_, s4) \<leftarrow> rxPlus rxSpace s3;
     (name, s5) \<leftarrow> rxPlus rxWord s4;
     (_, s6) \<leftarrow> rxPlus rxSpace s5;
     (_, s7) \<leftarrow> rxLit DQ s6;
     (val, s8) \<leftarrow> rxPlusLazy rxDot s7;
     (_, s9) \<leftarrow> rxLit (DQ @ ''>'') s8;
     [((name, val), s9)]
   }"

definition parseEntity :: "DTDParser \<Rightarrow> string \<Rightarrow> DTDParser" where
  "parseEntity p line =
     (case rxFind reEntity line of
        None \<Rightarrow> p
      | Some (entityName, entityValue) \<Rightarrow> p\<lparr>entities := (entities p)(entityName \<mapsto> entityValue)\<rparr>)"

text \<open>The pattern \<^verbatim>\<open><!ELEMENT\s+([\w-]+)\s+(.+?)>\<close> at one starting position.\<close>

definition reElement :: "(string \<times> string) rx" where
  "reElement s = do {
     (_, s1) \<leftarrow> rxLit ''<!ELEMENT'' s;
     (_, s2) \<leftarrow> rxPlus rxSpace s1;
     (name, s3) \<leftarrow> rxPlus rxWordDash s2;
     (_, s4) \<leftarrow> rxPlus rxSpace s3;
     (content, s5) \<leftarrow> rxPlusLazy rxDot s4;
     (_, s6) \<leftarrow> rxLit ''>'' s5;
     [((name, content), s6)]
   }"

definition parseElement :: "DTDParser \<Rightarrow> string \<Rightarrow> DTDParser" where
  "parseElement p line =
     (case rxFind reElement line of
        None \<Rightarrow> p
      | Some (name, m2) \<Rightarrow>
          (let content = TrimSpace m2;
               order = (if elements p name = None then elementOrder p @ [name] else elementOrder p)
           in p\<lparr>elementOrder := order,
                elements := (elements p)(name \<mapsto> \<lparr>Name = name, Content = content, Attributes = []\<rparr>)\<rparr>))"

section \<open>Attribute lists\<close>

text \<open>
  The three places that read a default specification do the same: \<open>#REQUIRED\<close> sets the
  flag, \<open>#IMPLIED\<close> leaves the attribute as it is, anything else is the default value
  with the double quotes at its ends removed.
\<close>

definition withDefault :: "DTDAttribute \<Rightarrow> string \<Rightarrow> DTDAttribute" where
  "withDefault attr defaultInfo =
     (if defaultInfo = ''#REQUIRED'' then attr\<lparr>Required := True\<rparr>
      else if defaultInfo \<noteq> ''#IMPLIED'' then attr\<lparr>DefaultValue := Trim defaultInfo DQ\<rparr>
      else attr)"

definition newAttribute :: "string \<Rightarrow> string \<Rightarrow> DTDAttribute" where
  "newAttribute n t = \<lparr>AttrName = n, Type = t, DefaultValue = [], Required = False\<rparr>"

text \<open>
  The search of \<open>parseEntityValue\<close> for the first part that contains a closing parenthesis:
  its index, or \<open>-1\<close> when there is none.
\<close>

fun findTypeEnd :: "string list \<Rightarrow> nat \<Rightarrow> int" where
  "findTypeEnd [] i = -1"
| "findTypeEnd (part # parts) i = (if Contains part '')'' then int i else findTypeEnd parts (Suc i))"

definition parseEntityValue :: "string \<Rightarrow> string \<Rightarrow> DTDAttribute list \<Rightarrow> DTDAttribute list" where
  "parseEntityValue elementName entityValue attrs =
     (let parts = Fields entityValue in
      if length parts < 3 then attrs
      else
        let attrName = parts ! 0;
            typeEnd = findTypeEnd parts 0;
            defaultInfo = (if typeEnd + 1 < int (length parts) then parts ! nat (typeEnd + 1) else [])
        in attrs @ [withDefault (newAttribute attrName ''string'') defaultInfo])"

text \<open>The change of \<open>parenCount\<close> over one part: \<open>+1\<close> for each \<open>(\<close>, \<open>-1\<close> for each \<open>)\<close>.\<close>

definition parenDelta :: "string \<Rightarrow> int" where
  "parenDelta part = foldl (\<lambda>n c. if c = CHR ''('' then n + 1 else if c = CHR '')'' then n - 1 else n) 0 part"

text \<open>
  The inner loop of \<open>parseAttributeList\<close>: from index \<open>j\<close> on, the first part after which
  the count is back at zero and which contains a closing parenthesis; \<open>length parts\<close> when
  no part does.
\<close>

function parenEnd :: "string list \<Rightarrow> nat \<Rightarrow> int \<Rightarrow> nat" where
  "parenEnd parts j parenCount =
     (if j < length parts
      then (if parenCount + parenDelta (parts ! j) = 0 \<and> Contains (parts ! j) '')'' then j
            else parenEnd parts (j + 1) (parenCount + parenDelta (parts ! j)))
      else j)"
  by pat_completeness auto
termination
  by (relation "measure (\<lambda>(parts, j, c). length parts - j)") auto

declare parenEnd.simps [simp del]

text \<open>The outer loop of \<open>parseAttributeList\<close>, over the parts after the element name.\<close>

function attrLoop :: "(string \<rightharpoonup> string) \<Rightarrow> string \<Rightarrow> string list \<Rightarrow> nat \<Rightarrow> DTDAttribute list \<Rightarrow> DTDAttribute list" where
  "attrLoop ents elementName parts i attrs =
     (if i < length parts then
        (if HasPrefix (parts ! i) ''%'' \<and> HasSuffix (parts ! i) '';'' then
           attrLoop ents elementName parts (i + 1)
             (case ents (TrimSuffix (TrimPrefix (parts ! i) ''%'') '';'') of
                Some entityValue \<Rightarrow> parseEntityValue elementName entityValue attrs
              | None \<Rightarrow> attrs)
         else if i + 2 < length parts then
           (if Contains (parts ! (i + 1)) ''('' then
              attrLoop ents elementName parts (parenEnd parts (i + 1) 0 + 2)
                (if parenEnd parts (i + 1) 0 + 1 < length parts
                 then attrs @ [withDefault (newAttribute (parts ! i) ''string'')
                                 (parts ! (parenEnd parts (i + 1) 0 + 1))]
                 else attrs)
            else
              attrLoop ents elementName parts (i + 3)
                (attrs @ [withDefault (newAttribute (parts ! i) (parts ! (i + 1))) (parts ! (i + 2))]))
         else attrLoop ents elementName parts (i + 1) attrs)
      else attrs)"
  by pat_completeness auto
termination
proof (relation "measure (\<lambda>(ents, elementName, parts, i, attrs). length parts - i)", goal_cases)
  case 1
  show ?case by simp
next
  case (2 ents elementName parts i attrs)
  then show ?case by simp
next
  case (3 ents elementName parts i attrs)
  have ge: "j \<le> parenEnd parts j c" for j c
  proof (induction parts j c rule: parenEnd.induct)
    case (1 parts j parenCount)
    show ?case
    proof (cases "j < length parts \<and> \<not> (parenCount + parenDelta (parts ! j) = 0 \<and> Contains (parts ! j) '')'')")
      case True
      then have "j + 1 \<le> parenEnd parts (j + 1) (parenCount + parenDelta (parts ! j))"
        using "1.IH" by blast
      moreover have "parenEnd parts j parenCount = parenEnd parts (j + 1) (parenCount + parenDelta (parts ! j))"
        using True by (subst parenEnd.simps) auto
      ultimately show ?thesis by linarith
    next
      case False
      then have "parenEnd parts j parenCount = j"
        by (subst parenEnd.simps) auto
      then show ?thesis by simp
    qed
  qed
  have "i + 1 \<le> parenEnd parts (i + 1) 0"
    by (rule ge)
  with 3 show ?case by simp
next
  case (4 ents elementName parts i attrs)
  then show ?case by simp
next
  case (5 ents elementName parts i attrs)
  then show ?case by simp
qed

declare attrLoop.simps [simp del]

text \<open>
  What one \<open><!ATTLIST ...>\<close> statement declares: the element name and the attributes
  parsed from the statement, or nothing when the statement has no part at all.
\<close>

definition attlistDecl :: "(string \<rightharpoonup> string) \<Rightarrow> string \<Rightarrow> (string \<times> DTDAttribute list) option" where
  "attlistDecl ents line =
     (case Fields (TrimSpace (TrimSuffix (TrimPrefix line ''<!ATTLIST'') ''>'')) of
        [] \<Rightarrow> None
      | elementName # parts \<Rightarrow> Some (elementName, attrLoop ents elementName parts 0 []))"

definition parseAttributeList :: "DTDParser \<Rightarrow> string \<Rightarrow> DTDParser" where
  "parseAttributeList p line =
     (case attlistDecl (entities p) line of
        None \<Rightarrow> p
      | Some (elementName, attrs) \<Rightarrow>
          p\<lparr>attributes := (attributes p)(elementName \<mapsto>
               (case attributes p elementName of
                  Some existingAttrs \<Rightarrow> existingAttrs @ attrs
                | None \<Rightarrow> attrs))\<rparr>)"

definition parseLine :: "DTDParser \<Rightarrow> string \<Rightarrow> DTDParser" where
  "parseLine p line0 =
     (let line = TrimSpace line0 in
      if HasPrefix line ''<!ENTITY'' then parseEntity p line
      else if HasPrefix line ''<!ELEMENT'' then parseElement p line
      else if HasPrefix line ''<!ATTLIST'' then parseAttributeList p line
      else p)"

section \<open>Reading the file\<close>

text \<open>
  \<open>ParseFile\<close> opens the file and reads it through a \<open>bufio.Scanner\<close>. The model takes what
  the operating system and the scanner deliver: the file cannot be opened; or the scanner
  yields the lines (without their line ends) and stops at the end of the input; or it
  yields some lines and stops with an error.
\<close>

datatype source_file = OpenFails | Lines "string list" | LinesThenError "string list"

datatype error = OpenError | ReadError

text \<open>
  The loop over the scanned lines. \<open>currentLine\<close> is the text gathered since the last
  complete declaration.
\<close>

fun scanLoop :: "DTDParser \<Rightarrow> string \<Rightarrow> string list \<Rightarrow> DTDParser" where
  "scanLoop p currentLine [] = p"
| "scanLoop p currentLine (text # rest) =
     (if TrimSpace text = [] \<or> HasPrefix (TrimSpace text) ''<!--'' then scanLoop p currentLine rest
      else if HasSuffix (TrimSpace text) ''>'' \<and>
              (Contains (currentLine @ TrimSpace text @ '' '') ''<!ELEMENT'' \<or>
               Contains (currentLine @ TrimSpace text @ '' '') ''<!ATTLIST'' \<or>
               Contains (currentLine @ TrimSpace text @ '' '') ''<!ENTITY'')
      then scanLoop (parseLine p (TrimSpace (currentLine @ TrimSpace text @ '' ''))) [] rest
      else scanLoop p (currentLine @ TrimSpace text @ '' '') rest)"

text \<open>
  The loop that attaches the attributes to their elements ranges over the map
  \<open>p.attributes\<close>, in an order that the Go runtime chooses. \<open>ks\<close> is that order: the keys
  of the map, each once.
\<close>

definition rangeOrder :: "string list \<Rightarrow> (string \<rightharpoonup> 'v) \<Rightarrow> bool" where
  "rangeOrder ks m \<longleftrightarrow> distinct ks \<and> set ks = dom m"

definition associate :: "string list \<Rightarrow> DTDParser \<Rightarrow> (string \<rightharpoonup> DTDElement)" where
  "associate ks p =
     foldl (\<lambda>els elementName.
              case attributes p elementName of
                None \<Rightarrow> els
              | Some attrs \<Rightarrow>
                  (case els elementName of
                     None \<Rightarrow> els
                   | Some element \<Rightarrow> els(elementName \<mapsto> element\<lparr>Attributes := attrs\<rparr>)))
           (elements p) ks"

definition ParseFile :: "DTDParser \<Rightarrow> string list \<Rightarrow> source_file \<Rightarrow> error + ParseResult" where
  "ParseFile p ks file =
     (case file of
        OpenFails \<Rightarrow> Inl OpenError
      | LinesThenError ls \<Rightarrow> Inl ReadError
      | Lines ls \<Rightarrow>
          Inr \<lparr>Elements = associate ks (scanLoop p [] ls), Order = elementOrder (scanLoop p [] ls)\<rparr>)"

section \<open>The generator\<close>

record StructGenerator =
  packageName :: string
  gen_elements :: "string \<rightharpoonup> DTDElement"
  gen_elementOrder :: "string list"

definition NewStructGenerator :: "string \<Rightarrow> (string \<rightharpoonup> DTDElement) \<Rightarrow> string list \<Rightarrow> StructGenerator" where
  "NewStructGenerator pkg els order = \<lparr>packageName = pkg, gen_elements = els, gen_elementOrder = order\<rparr>"

subsection \<open>Names, types and tags\<close>

definition isDashOrUnderscore :: "char \<Rightarrow> bool" where
  "isDashOrUnderscore c \<longleftrightarrow> c = CHR ''-'' \<or> c = CHR ''_''"

definition toGoStructName :: "string \<Rightarrow> string" where
  "toGoStructName name =
     (let structName = concat (map Title (FieldsFunc name isDashOrUnderscore))
      in if structName = [] then ''Element'' else structName)"

definition upperFirst :: "string \<Rightarrow> string" where
  "upperFirst word = (case word of [] \<Rightarrow> [] | c # cs \<Rightarrow> toUpperChar c # cs)"

definition toGoFieldName :: "string \<Rightarrow> string" where
  "toGoFieldName name =
     (let fieldName = concat (map upperFirst (FieldsFunc name isDashOrUnderscore))
      in if fieldName = [] then ''Field'' else fieldName)"

definition getGoType :: "string \<Rightarrow> string" where
  "getGoType dtdType =
     (if ToUpper dtdType \<in> {''CDATA'', ''ID'', ''IDREF'', ''NMTOKEN''} then ''string''
      else if ToUpper dtdType \<in> {''IDREFS'', ''NMTOKENS''} then ''[]string''
      else ''string'')"

definition getXMLTag :: "string \<Rightarrow> bool \<Rightarrow> bool \<Rightarrow> string" where
  "getXMLTag name required isAttribute =
     (if isAttribute then name @ '',attr'' else name) @ (if \<not> required then '',omitempty'' else [])"

subsection \<open>Simple elements\<close>

definition isSimpleElement :: "StructGenerator \<Rightarrow> string \<Rightarrow> bool" where
  "isSimpleElement g elementName =
     (case gen_elements g elementName of
        None \<Rightarrow> True
      | Some element \<Rightarrow>
          (let content = TrimSpace (Content element) in
           if content = ''( #PCDATA )'' \<or> content = ''#PCDATA'' \<or> content = ''EMPTY'' then True
           else if length (Attributes element) = 0 \<and>
                   (content = ''( #PCDATA )'' \<or> Contains content ''#PCDATA'') then True
           else False))"

definition canContainText :: "string \<Rightarrow> bool" where
  "canContainText content = Contains content ''#PCDATA''"

subsection \<open>Content models\<close>

definition groupRepeating :: "string \<Rightarrow> bool" where
  "groupRepeating content = (HasSuffix (TrimSpace content) '')*'' \<or> HasSuffix (TrimSpace content) '')+'')"

text \<open>Lines 115 to 122: the content model without its group indicator and outer parentheses.\<close>

definition cleanContent :: "string \<Rightarrow> string" where
  "cleanContent content =
     TrimSpace (Trim (if groupRepeating content \<and> (HasSuffix content '')*'' \<or> HasSuffix content '')+'')
                      then take (length content - 2) content
                      else content) ''()'')"

definition isCommaOrBar :: "char \<Rightarrow> bool" where
  "isCommaOrBar c \<longleftrightarrow> c = CHR '','' \<or> c = CHR ''|''"

definition isOccurrence :: "char \<Rightarrow> bool" where
  "isOccurrence c \<longleftrightarrow> c = CHR ''+'' \<or> c = CHR ''*'' \<or> c = CHR ''?''"

definition isPunctuation :: "char \<Rightarrow> bool" where
  "isPunctuation c \<longleftrightarrow> c = CHR ''+'' \<or> c = CHR ''*'' \<or> c = CHR ''?'' \<or> c = CHR ''('' \<or> c = CHR '')'' \<or> c = CHR '',''"

text \<open>The body of the loop over the parts: the element names one part contributes.\<close>

definition partNames :: "string \<Rightarrow> string list" where
  "partNames part0 =
     (let part = TrimSpace (Trim (RemoveClass isOccurrence (TrimSpace part0)) ''()'') in
      if part \<noteq> [] \<and> \<not> Contains part ''#PCDATA'' \<and> \<not> Contains part ''%''
      then filter (\<lambda>subPart. subPart \<noteq> [] \<and> \<not> Contains subPart ''#PCDATA'')
             (map (\<lambda>subPart. TrimSpace (RemoveClass isPunctuation subPart)) (Fields part))
      else [])"

definition elementNames :: "string \<Rightarrow> string list" where
  "elementNames content = concat (map partNames (SplitClass isCommaOrBar (cleanContent content)))"

definition isSlice :: "string \<Rightarrow> string \<Rightarrow> bool" where
  "isSlice content name \<longleftrightarrow>
     groupRepeating content \<or> Contains (TrimSpace content) (name @ ''*'') \<or>
     Contains (TrimSpace content) (name @ ''+'') \<or> Contains (TrimSpace content) ''|''"

definition omitemptyTag :: "string \<Rightarrow> string" where
  "omitemptyTag name = BQ @ ''xml:'' @ DQ @ name @ '',omitempty'' @ DQ @ BQ"

definition contentField :: "StructGenerator \<Rightarrow> string \<Rightarrow> string \<Rightarrow> string" where
  "contentField g content name =
     (if isSimpleElement g name then
        (if isSlice content name
         then toGoFieldName name @ '' []string '' @ omitemptyTag name
         else toGoFieldName name @ '' *string '' @ omitemptyTag name)
      else
        (if isSlice content name
         then toGoFieldName name @ '' []'' @ toGoStructName name @ '' '' @ omitemptyTag name
         else toGoFieldName name @ '' *'' @ toGoStructName name @ '' '' @ omitemptyTag name))"

text \<open>
  The loop that removes duplicates: \<open>seen\<close> holds the names of \<open>uniqueNames\<close>, and a field
  is appended for a name the first time the name comes up.
\<close>

fun fieldsLoop :: "StructGenerator \<Rightarrow> string \<Rightarrow> string list \<Rightarrow> string list \<Rightarrow> string list" where
  "fieldsLoop g content seen [] = []"
| "fieldsLoop g content seen (name # names) =
     (if name \<notin> set seen
      then contentField g content name # fieldsLoop g content (name # seen) names
      else fieldsLoop g content seen names)"

definition parseContentModel :: "StructGenerator \<Rightarrow> string \<Rightarrow> string list" where
  "parseContentModel g content =
     (if content = ''EMPTY'' then []
      else if content = ''ANY'' then [''Content string '' @ BQ @ ''xml:'' @ DQ @ '',innerxml'' @ DQ @ BQ]
      else if Contains content ''#PCDATA'' then []
      else if Contains content ''%'' then []
      else fieldsLoop g content [] (elementNames content))"

subsection \<open>Definitions\<close>

definition attributeField :: "DTDAttribute \<Rightarrow> string" where
  "attributeField attr =
     TAB @ toGoFieldName (AttrName attr) @ '' '' @ getGoType (Type attr) @ '' '' @ BQ @ ''xml:'' @ DQ @
     getXMLTag (AttrName attr) (Required attr) True @ DQ @ BQ @ NL"

definition generateStruct :: "StructGenerator \<Rightarrow> DTDElement \<Rightarrow> string" where
  "generateStruct g element =
     ''// '' @ toGoStructName (Name element) @ '' represents the <'' @ Name element @ ''> element'' @ NL @
     ''type '' @ toGoStructName (Name element) @ '' struct {'' @ NL @
     TAB @ ''XMLName xml.Name '' @ BQ @ ''xml:'' @ DQ @ Name element @ DQ @ BQ @ NL @
     concat (map attributeField (Attributes element)) @
     concat (map (\<lambda>field. TAB @ field @ NL) (parseContentModel g (Content element))) @
     (if canContainText (Content element)
      then TAB @ ''Text string '' @ BQ @ ''xml:'' @ DQ @ '',chardata'' @ DQ @ BQ @ NL else []) @
     ''}''"

fun structsLoop :: "StructGenerator \<Rightarrow> string list \<Rightarrow> string" where
  "structsLoop g [] = []"
| "structsLoop g (elementName # rest) =
     (case gen_elements g elementName of
        None \<Rightarrow> structsLoop g rest
      | Some element \<Rightarrow>
          (if \<not> isSimpleElement g elementName
           then generateStruct g element @ NL @ structsLoop g rest
           else structsLoop g rest))"

definition GenerateStructs :: "StructGenerator \<Rightarrow> string" where
  "GenerateStructs g =
     ''package '' @ packageName g @ NL @ NL @
     ''import '' @ DQ @ ''encoding/xml'' @ DQ @ NL @ NL @
     structsLoop g (gen_elementOrder g)"

section \<open>The run of the program\<close>

text \<open>
  What \<open>main\<close> does between reading its flags and writing its output: it parses the file
  with a new parser; a failure is reported and ends the run; when the result has no
  element, a message is printed and no code is generated; otherwise the code is the
  output of \<open>GenerateStructs\<close> for the package name, the elements and the order.
\<close>

definition mainCode :: "string \<Rightarrow> string list \<Rightarrow> source_file \<Rightarrow> error + string option" where
  "mainCode pkg ks file =
     (case ParseFile NewDTDParser ks file of
        Inl err \<Rightarrow> Inl err
      | Inr result \<Rightarrow>
          (if Elements result = Map.empty then Inr None
           else Inr (Some (GenerateStructs (NewStructGenerator pkg (Elements result) (Order result))))))"

section \<open>Notions of the specification\<close>

text \<open>
  The complete declarations of a file: the texts that the loop of \<open>ParseFile\<close> hands to
  \<open>parseLine\<close>, in order. \<open>currentLine\<close> is the text gathered so far.
\<close>

fun declarations :: "string \<Rightarrow> string list \<Rightarrow> string list" where
  "declarations currentLine [] = []"
| "declarations currentLine (text # rest) =
     (if TrimSpace text = [] \<or> HasPrefix (TrimSpace text) ''<!--'' then declarations currentLine rest
      else if HasSuffix (TrimSpace text) ''>'' \<and>
              (Contains (currentLine @ TrimSpace text @ '' '') ''<!ELEMENT'' \<or>
               Contains (currentLine @ TrimSpace text @ '' '') ''<!ATTLIST'' \<or>
               Contains (currentLine @ TrimSpace text @ '' '') ''<!ENTITY'')
      then TrimSpace (currentLine @ TrimSpace text @ '' '') # declarations [] rest
      else declarations (currentLine @ TrimSpace text @ '' '') rest)"

text \<open>The parameter entities known after a declaration.\<close>

definition entitiesAfter :: "(string \<rightharpoonup> string) \<Rightarrow> string \<Rightarrow> (string \<rightharpoonup> string)" where
  "entitiesAfter ents d =
     (if HasPrefix (TrimSpace d) ''<!ENTITY''
      then (case rxFind reEntity (TrimSpace d) of None \<Rightarrow> ents | Some (k, v) \<Rightarrow> ents(k \<mapsto> v))
      else ents)"

text \<open>
  The attribute definitions parsed from the \<open><!ATTLIST ...>\<close> statements that name the
  element \<open>n\<close>, concatenated in the order of the statements; each statement is read with
  the entities declared before it.
\<close>

fun statementAttrs :: "(string \<rightharpoonup> string) \<Rightarrow> string list \<Rightarrow> string \<Rightarrow> DTDAttribute list" where
  "statementAttrs ents [] n = []"
| "statementAttrs ents (d # ds) n =
     (if HasPrefix (TrimSpace d) ''<!ATTLIST''
      then (case attlistDecl ents (TrimSpace d) of
              None \<Rightarrow> statementAttrs ents ds n
            | Some (m, attrs) \<Rightarrow> (if m = n then attrs else []) @ statementAttrs ents ds n)
      else statementAttrs (entitiesAfter ents d) ds n)"

text \<open>The element names that the \<open><!ATTLIST ...>\<close> statements name.\<close>

fun attlistTargets :: "string list \<Rightarrow> string list" where
  "attlistTargets [] = []"
| "attlistTargets (d # ds) =
     (if HasPrefix (TrimSpace d) ''<!ATTLIST''
      then (case attlistDecl Map.empty (TrimSpace d) of
              None \<Rightarrow> attlistTargets ds
            | Some (m, attrs) \<Rightarrow> m # attlistTargets ds)
      else attlistTargets ds)"

text \<open>The names that have an \<open><!ELEMENT ...>\<close> declaration of the expected shape.\<close>

fun declaredNames :: "string list \<Rightarrow> string list" where
  "declaredNames [] = []"
| "declaredNames (d # ds) =
     (if HasPrefix (TrimSpace d) ''<!ELEMENT''
      then (case rxFind reElement (TrimSpace d) of
              None \<Rightarrow> declaredNames ds
            | Some (name, content) \<Rightarrow> name # declaredNames ds)
      else declaredNames ds)"


text \<open>The attributes recorded for a name in the parser, none when the name has no entry.\<close>

definition attrsOf :: "DTDParser \<Rightarrow> string \<Rightarrow> DTDAttribute list" where
  "attrsOf p n = (case attributes p n of None \<Rightarrow> [] | Some attrs \<Rightarrow> attrs)"

section \<open>Invariants of the parser\<close>

text \<open>The declaration order lists every recorded element once, and nothing else.\<close>

definition orderInv :: "DTDParser \<Rightarrow> bool" where
  "orderInv p \<longleftrightarrow> distinct (elementOrder p) \<and> set (elementOrder p) = dom (elements p)"

text \<open>
  While the declarations are read, the recorded elements carry no attributes: the
  attributes are kept apart in \<open>attributes\<close> until the end of \<open>ParseFile\<close>.
\<close>

definition bareElements :: "DTDParser \<Rightarrow> bool" where
  "bareElements p \<longleftrightarrow> (\<forall>n e. elements p n = Some e \<longrightarrow> Attributes e = [])"

section \<open>Sample inputs\<close>

text \<open>A generator over a grammar without declarations.\<close>

definition noElements :: StructGenerator where
  "noElements = NewStructGenerator ''main'' Map.empty []"

text \<open>An element with mixed content and one attribute.\<close>

definition mixedQ :: DTDElement where
  "mixedQ = \<lparr>Name = ''q'', Content = ''(#PCDATA | em)*'',
             Attributes = [\<lparr>AttrName = ''id'', Type = ''ID'', DefaultValue = [], Required = False\<rparr>]\<rparr>"

definition mixedGen :: StructGenerator where
  "mixedGen = NewStructGenerator ''main'' [''q'' \<mapsto> mixedQ] [''q'']"






text \<open>
  A parameter entity that holds an attribute definition and is referenced from an
  attribute list: with a plain type (required, then implied) and with an enumerated type.
\<close>

definition plainEntityLines :: "string list" where
  "plainEntityLines =
     [''<!ENTITY % e '' @ DQ @ ''id CDATA #REQUIRED'' @ DQ @ ''>'',
      ''<!ELEMENT x (y)>'',
      ''<!ATTLIST x %e;>'']"

definition impliedEntityLines :: "string list" where
  "impliedEntityLines =
     [''<!ENTITY % e '' @ DQ @ ''id CDATA #IMPLIED'' @ DQ @ ''>'',
      ''<!ELEMENT x (y)>'',
      ''<!ATTLIST x %e;>'']"

definition enumEntityLines :: "string list" where
  "enumEntityLines =
     [''<!ENTITY % e '' @ DQ @ ''status ( a | b ) #REQUIRED'' @ DQ @ ''>'',
      ''<!ELEMENT x (y)>'',
      ''<!ATTLIST x %e;>'']"

text \<open>A parser that has read the declaration of \<open>x\<close>, for two attribute lists to follow.\<close>

definition declaredX :: DTDParser where
  "declaredX = parseElement NewDTDParser ''<!ELEMENT x (y)>''"

text \<open>Two element declarations, for a third one to repeat the first.\<close>

definition twoDecls :: "string list" where
  "twoDecls = [''<!ELEMENT a (b)>'', ''<!ELEMENT c (d)>'']"

text \<open>A declaration that is cut off before its closing \<open>>\<close>.\<close>

definition cutOffTail :: "string list" where
  "cutOffTail = [''<!ELEMENT c (d,'', ''   e)'']"

text \<open>
  A file with attribute lists before and after the element they name, and one for a name
  that is never declared.
\<close>

definition sampleLines :: "string list" where
  "sampleLines =
     [''<!ATTLIST x a CDATA #REQUIRED>'',
      ''<!ELEMENT x (y, z*)>'',
      ''<!ATTLIST x b ID #IMPLIED>'',
      ''<!ELEMENT z (#PCDATA)>'',
      ''<!ATTLIST z c CDATA #IMPLIED>'',
      ''<!ATTLIST w d CDATA #IMPLIED>'']"

definition sampleResult :: ParseResult where
  "sampleResult =
     \<lparr>Elements = associate [''x'', ''z'', ''w''] (scanLoop NewDTDParser [] sampleLines),
      Order = elementOrder (scanLoop NewDTDParser [] sampleLines)\<rparr>"

section \<open>Content models\<close>

lemma remdups_snoc: "remdups (ys @ [x]) = filter (\<lambda>y. y \<noteq> x) (remdups ys) @ [x]"
  by (induction ys) auto

text \<open>
  The loop over the extracted names emits one field for each name, at the place of the
  first occurrence of the name.
\<close>

lemma fieldsLoop_map:
  "fieldsLoop g content seen names =
     map (contentField g content) (rev (remdups (rev (filter (\<lambda>n. n \<notin> set seen) names))))"
proof (induction names arbitrary: seen)
  case Nil
  show ?case by simp
next
  case (Cons name names)
  show ?case
  proof (cases "name \<in> set seen")
    case True
    then show ?thesis using Cons.IH [of seen] by simp
  next
    case False
    have "filter (\<lambda>n. n \<notin> set (name # seen)) names = filter (\<lambda>y. y \<noteq> name) (filter (\<lambda>n. n \<notin> set seen) names)"
      by (induction names) auto
    then have "rev (remdups (rev (filter (\<lambda>n. n \<notin> set (name # seen)) names)))
             = rev (filter (\<lambda>y. y \<noteq> name) (remdups (rev (filter (\<lambda>n. n \<notin> set seen) names))))"
      by (simp add: remdups_filter rev_filter)
    then show ?thesis using False Cons.IH [of "name # seen"]
      by (simp add: remdups_snoc)
  qed
qed

text \<open>
  What the code computes for a content model that is not \<open>EMPTY\<close>, not \<open>ANY\<close> and
  contains neither \<open>#PCDATA\<close> nor \<open>%\<close>: one field for each extracted name, in the order
  of the first occurrences; the field is a collection when the trimmed model ends with
  \<open>)*\<close> or \<open>)+\<close>, or contains the text of the name followed by \<open>*\<close> or \<open>+\<close> anywhere, or
  contains \<open>|\<close>. The second test looks for a piece of text, not for a child: it also
  succeeds where the name is the end of a longer name.
\<close>

lemma parseContentModel_fields:
  assumes "content \<noteq> ''EMPTY''" and "content \<noteq> ''ANY''"
    and "\<not> Contains content ''#PCDATA''" and "\<not> Contains content ''%''"
  shows "parseContentModel g content =
           map (\<lambda>name. toGoFieldName name @ '' '' @
                  (if (HasSuffix (TrimSpace content) '')*'' \<or> HasSuffix (TrimSpace content) '')+'') \<or>
                      (Contains (TrimSpace content) (name @ ''*'') \<or> Contains (TrimSpace content) (name @ ''+'')) \<or>
                      Contains (TrimSpace content) ''|''
                   then ''[]'' else ''*'') @
                  (if isSimpleElement g name then ''string'' else toGoStructName name) @ '' '' @ omitemptyTag name)
               (rev (remdups (rev (elementNames content))))"
proof -
  have "parseContentModel g content = fieldsLoop g content [] (elementNames content)"
    using assms by (simp add: parseContentModel_def)
  also have "\<dots> = map (contentField g content) (rev (remdups (rev (elementNames content))))"
    by (simp add: fieldsLoop_map)
  finally show ?thesis
    by (simp add: contentField_def isSlice_def groupRepeating_def)
qed

text \<open>
  Claim C1, at the input where the code departs from it. In
  \<open><!ELEMENT book (title, subtitle*)>\<close> there is no group indicator and no choice, and the
  child \<open>title\<close> stands alone, without \<open>*\<close> or \<open>+\<close>: by the claim its field is single and
  optional. The code finds the text \<open>title*\<close> inside \<open>subtitle*\<close> and makes \<open>Title\<close> a
  collection. Where no name ends another one, as in \<open>(title, author*)\<close>, the bare child
  is single, and the example \<open>(circle | square)\<close> of the specification gives two
  collections.
\<close>

theorem bare_child_made_collection:
  "rxFind reElement ''<!ELEMENT book (title, subtitle*)>'' = Some (''book'', ''(title, subtitle*)'') \<and>
   \<not> groupRepeating ''(title, subtitle*)'' \<and>
   \<not> Contains (TrimSpace ''(title, subtitle*)'') ''|'' \<and>
   SplitClass isCommaOrBar (cleanContent ''(title, subtitle*)'') = [''title'', '' subtitle*''] \<and>
   elementNames ''(title, subtitle*)'' = [''title'', ''subtitle''] \<and>
   Contains (TrimSpace ''(title, subtitle*)'') (''title'' @ ''*'') \<and>
   parseContentModel noElements ''(title, subtitle*)'' =
     [''Title []string '' @ BQ @ ''xml:'' @ DQ @ ''title,omitempty'' @ DQ @ BQ,
      ''Subtitle []string '' @ BQ @ ''xml:'' @ DQ @ ''subtitle,omitempty'' @ DQ @ BQ] \<and>
   parseContentModel noElements ''(title, author*)'' =
     [''Title *string '' @ BQ @ ''xml:'' @ DQ @ ''title,omitempty'' @ DQ @ BQ,
      ''Author []string '' @ BQ @ ''xml:'' @ DQ @ ''author,omitempty'' @ DQ @ BQ] \<and>
   parseContentModel noElements ''(circle | square)'' =
     [''Circle []string '' @ BQ @ ''xml:'' @ DQ @ ''circle,omitempty'' @ DQ @ BQ,
      ''Square []string '' @ BQ @ ''xml:'' @ DQ @ ''square,omitempty'' @ DQ @ BQ]"
  by code_simp

text \<open>
  Claim C10. A child name extracted from the content model that has no declaration among
  the generator's elements is treated as simple, and its field in the result has the
  type \<open>[]string\<close> when it is repeatable and \<open>*string\<close> otherwise: it never refers to a
  struct type.
\<close>

theorem undeclared_child_is_string:
  assumes "content \<noteq> ''EMPTY''" and "content \<noteq> ''ANY''"
    and "\<not> Contains content ''#PCDATA''" and "\<not> Contains content ''%''"
    and "name \<in> set (elementNames content)" and "gen_elements g name = None"
  shows "isSimpleElement g name \<and>
         toGoFieldName name @ (if isSlice content name then '' []string '' else '' *string '') @ omitemptyTag name
           \<in> set (parseContentModel g content)"
proof -
  have simple: "isSimpleElement g name"
    using assms(6) by (simp add: isSimpleElement_def)
  have "parseContentModel g content = map (contentField g content) (rev (remdups (rev (elementNames content))))"
    using assms(1-4) by (simp add: parseContentModel_def fieldsLoop_map)
  moreover have "name \<in> set (rev (remdups (rev (elementNames content))))"
    using assms(5) by simp
  ultimately have "contentField g content name \<in> set (parseContentModel g content)"
    by (metis imageI set_map)
  then show ?thesis
    using simple by (cases "isSlice content name") (simp_all add: contentField_def)
qed

theorem undeclared_child_is_string_witness:
  "''(title, author*)'' \<noteq> ''EMPTY'' \<and> ''(title, author*)'' \<noteq> ''ANY'' \<and>
   \<not> Contains ''(title, author*)'' ''#PCDATA'' \<and> \<not> Contains ''(title, author*)'' ''%'' \<and>
   ''author'' \<in> set (elementNames ''(title, author*)'') \<and> gen_elements noElements ''author'' = None \<and>
   isSimpleElement noElements ''author'' \<and>
   ''Author []string '' @ BQ @ ''xml:'' @ DQ @ ''author,omitempty'' @ DQ @ BQ
     \<in> set (parseContentModel noElements ''(title, author*)'')"
proof -
  have h1: "''(title, author*)'' \<noteq> ''EMPTY''" and h2: "''(title, author*)'' \<noteq> ''ANY''"
    by simp_all
  have h3: "\<not> Contains ''(title, author*)'' ''#PCDATA''" and h4: "\<not> Contains ''(title, author*)'' ''%''"
    by code_simp+
  have h5: "''author'' \<in> set (elementNames ''(title, author*)'')"
    by code_simp
  have h6: "gen_elements noElements ''author'' = None"
    by (simp add: noElements_def NewStructGenerator_def)
  have sl: "isSlice ''(title, author*)'' ''author''"
    by code_simp
  have fn: "toGoFieldName ''author'' = ''Author''"
    by code_simp
  show ?thesis
    using undeclared_child_is_string [OF h1 h2 h3 h4 h5 h6] h1 h2 h3 h4 h5 h6
    by (simp add: sl fn omitemptyTag_def)
qed

section \<open>Generated definitions\<close>

text \<open>
  Claim C6. When the content model of an element contains \<open>#PCDATA\<close> (as it does for a
  structured element with mixed content), the content model yields no child field, and
  the generated definition is: the comment, the type line, the \<open>XMLName\<close> field, the
  attribute fields, then the text field \<open>Text string `xml:",chardata"`\<close> as the last field.
\<close>

theorem mixed_content_text_field:
  assumes "Contains (Content element) ''#PCDATA''"
  shows "parseContentModel g (Content element) = [] \<and>
         generateStruct g element =
           ''// '' @ toGoStructName (Name element) @ '' represents the <'' @ Name element @ ''> element'' @ NL @
           ''type '' @ toGoStructName (Name element) @ '' struct {'' @ NL @
           TAB @ ''XMLName xml.Name '' @ BQ @ ''xml:'' @ DQ @ Name element @ DQ @ BQ @ NL @
           concat (map attributeField (Attributes element)) @
           TAB @ ''Text string '' @ BQ @ ''xml:'' @ DQ @ '',chardata'' @ DQ @ BQ @ NL @ ''}''"
proof -
  have "Content element \<noteq> ''EMPTY''" "Content element \<noteq> ''ANY''"
    using assms by auto
  then have "parseContentModel g (Content element) = []"
    using assms by (simp add: parseContentModel_def)
  then show ?thesis
    using assms by (simp add: generateStruct_def canContainText_def)
qed

theorem mixed_content_text_field_witness:
  "gen_elements mixedGen ''q'' = Some mixedQ \<and> \<not> isSimpleElement mixedGen ''q'' \<and>
   Contains (Content mixedQ) ''#PCDATA'' \<and>
   parseContentModel mixedGen (Content mixedQ) = [] \<and>
   generateStruct mixedGen mixedQ =
     ''// Q represents the <q> element'' @ NL @
     ''type Q struct {'' @ NL @
     TAB @ ''XMLName xml.Name '' @ BQ @ ''xml:'' @ DQ @ ''q'' @ DQ @ BQ @ NL @
     TAB @ ''Id string '' @ BQ @ ''xml:'' @ DQ @ ''id,attr,omitempty'' @ DQ @ BQ @ NL @
     TAB @ ''Text string '' @ BQ @ ''xml:'' @ DQ @ '',chardata'' @ DQ @ BQ @ NL @ ''}''"
proof -
  have g: "gen_elements mixedGen ''q'' = Some mixedQ"
    by (simp add: mixedGen_def NewStructGenerator_def)
  have ns: "\<not> isSimpleElement mixedGen ''q''"
    by code_simp
  have h: "Contains (Content mixedQ) ''#PCDATA''"
    by code_simp
  have sn: "toGoStructName ''q'' = ''Q''" and n: "Name mixedQ = ''q''"
    by code_simp+
  have attrs: "concat (map attributeField (Attributes mixedQ)) =
                 TAB @ ''Id string '' @ BQ @ ''xml:'' @ DQ @ ''id,attr,omitempty'' @ DQ @ BQ @ NL"
    by code_simp
  show ?thesis
    using mixed_content_text_field [OF h, of mixedGen] h g ns
    by (simp add: sn n attrs)
qed





section \<open>Declarations\<close>

lemma HasPrefix_Cons: "HasPrefix s (c # p) \<longleftrightarrow> (\<exists>t. s = c # t \<and> HasPrefix t p)"
  by (cases s) auto

text \<open>The three keywords exclude each other, so the order of the tests in \<open>parseLine\<close> is immaterial.\<close>

lemma not_entity_if_attlist: "HasPrefix s ''<!ATTLIST'' \<Longrightarrow> \<not> HasPrefix s ''<!ENTITY''"
  by (auto simp: HasPrefix_Cons)

lemma not_element_if_attlist: "HasPrefix s ''<!ATTLIST'' \<Longrightarrow> \<not> HasPrefix s ''<!ELEMENT''"
  by (auto simp: HasPrefix_Cons)

lemma not_entity_if_element: "HasPrefix s ''<!ELEMENT'' \<Longrightarrow> \<not> HasPrefix s ''<!ENTITY''"
  by (auto simp: HasPrefix_Cons)

lemma parseLine_cases:
  "parseLine p d =
     (if HasPrefix (TrimSpace d) ''<!ATTLIST'' then parseAttributeList p (TrimSpace d)
      else if HasPrefix (TrimSpace d) ''<!ELEMENT'' then parseElement p (TrimSpace d)
      else if HasPrefix (TrimSpace d) ''<!ENTITY'' then parseEntity p (TrimSpace d)
      else p)"
  using not_entity_if_attlist [of "TrimSpace d"] not_element_if_attlist [of "TrimSpace d"]
    not_entity_if_element [of "TrimSpace d"]
  by (simp add: parseLine_def Let_def)

text \<open>Each kind of declaration changes its own part of the parser and nothing else.\<close>

lemma parseEntity_fields [simp]:
  "elements (parseEntity p l) = elements p" "attributes (parseEntity p l) = attributes p"
  "elementOrder (parseEntity p l) = elementOrder p"
  by (auto simp: parseEntity_def split: option.splits)

lemma parseElement_fields [simp]:
  "attributes (parseElement p l) = attributes p" "entities (parseElement p l) = entities p"
  by (auto simp: parseElement_def Let_def split: option.splits)

lemma parseAttributeList_fields [simp]:
  "elements (parseAttributeList p l) = elements p" "entities (parseAttributeList p l) = entities p"
  "elementOrder (parseAttributeList p l) = elementOrder p"
  by (auto simp: parseAttributeList_def split: option.splits)

lemma entities_parseLine: "entities (parseLine p d) = entitiesAfter (entities p) d"
  using not_entity_if_attlist [of "TrimSpace d"] not_entity_if_element [of "TrimSpace d"]
  by (auto simp: parseLine_def Let_def entitiesAfter_def parseEntity_def split: option.splits)

text \<open>The order invariant holds in every state the parser reaches.\<close>

lemma orderInv_parseElement: "orderInv p \<Longrightarrow> orderInv (parseElement p l)"
  by (auto simp: orderInv_def parseElement_def Let_def split: option.splits)

lemma orderInv_parseLine: "orderInv p \<Longrightarrow> orderInv (parseLine p d)"
  using orderInv_parseElement [of p "TrimSpace d"]
  by (auto simp: parseLine_cases) (simp_all add: orderInv_def)

lemma orderInv_run: "orderInv p \<Longrightarrow> orderInv (foldl parseLine p ds)"
  by (induction ds arbitrary: p) (simp_all add: orderInv_parseLine)

lemma orderInv_new: "orderInv NewDTDParser"
  by (simp add: orderInv_def NewDTDParser_def)

lemma count_list_distinct: "distinct xs \<Longrightarrow> x \<in> set xs \<Longrightarrow> count_list xs x = 1"
  by (induction xs) auto

text \<open>
  Claim C4. In a state that the parser reaches from the new parser by any declarations,
  an \<open><!ELEMENT name content>\<close> declaration of the expected shape stores the entry
  \<open>name\<close> with the trimmed content; afterwards \<open>name\<close> occurs exactly once in the
  declaration order; when \<open>name\<close> was declared before, the order is unchanged, otherwise
  \<open>name\<close> is appended at its end; and the order still lists the recorded names, each once.
\<close>

theorem element_declared_once:
  assumes "rxFind reElement line = Some (name, m2)"
  shows "elements (parseElement (foldl parseLine NewDTDParser ds) line) name =
           Some \<lparr>Name = name, Content = TrimSpace m2, Attributes = []\<rparr> \<and>
         count_list (elementOrder (parseElement (foldl parseLine NewDTDParser ds) line)) name = 1 \<and>
         elementOrder (parseElement (foldl parseLine NewDTDParser ds) line) =
           (if elements (foldl parseLine NewDTDParser ds) name = None
            then elementOrder (foldl parseLine NewDTDParser ds) @ [name]
            else elementOrder (foldl parseLine NewDTDParser ds)) \<and>
         distinct (elementOrder (parseElement (foldl parseLine NewDTDParser ds) line)) \<and>
         set (elementOrder (parseElement (foldl parseLine NewDTDParser ds) line)) =
           dom (elements (parseElement (foldl parseLine NewDTDParser ds) line))"
proof -
  let ?p = "foldl parseLine NewDTDParser ds"
  have inv: "orderInv ?p"
    by (simp add: orderInv_run orderInv_new)
  then have inv': "orderInv (parseElement ?p line)"
    by (rule orderInv_parseElement)
  have el: "elements (parseElement ?p line) name = Some \<lparr>Name = name, Content = TrimSpace m2, Attributes = []\<rparr>"
    using assms by (simp add: parseElement_def Let_def)
  have ord: "elementOrder (parseElement ?p line) =
           (if elements ?p name = None then elementOrder ?p @ [name] else elementOrder ?p)"
    using assms by (simp add: parseElement_def Let_def)
  have "name \<in> set (elementOrder (parseElement ?p line))"
    using inv' el by (auto simp: orderInv_def)
  then have "count_list (elementOrder (parseElement ?p line)) name = 1"
    using inv' by (simp add: orderInv_def count_list_distinct)
  then show ?thesis
    using el ord inv' by (simp add: orderInv_def)
qed

theorem element_declared_once_witness:
  "rxFind reElement ''<!ELEMENT a (x, y)>'' = Some (''a'', ''(x, y)'') \<and>
   elements (parseElement (foldl parseLine NewDTDParser twoDecls) ''<!ELEMENT a (x, y)>'') ''a'' =
     Some \<lparr>Name = ''a'', Content = ''(x, y)'', Attributes = []\<rparr> \<and>
   count_list (elementOrder (parseElement (foldl parseLine NewDTDParser twoDecls) ''<!ELEMENT a (x, y)>'')) ''a'' = 1 \<and>
   elementOrder (parseElement (foldl parseLine NewDTDParser twoDecls) ''<!ELEMENT a (x, y)>'') = [''a'', ''c'']"
proof -
  have h: "rxFind reElement ''<!ELEMENT a (x, y)>'' = Some (''a'', ''(x, y)'')"
    by code_simp
  have t: "TrimSpace ''(x, y)'' = ''(x, y)''"
    by code_simp
  have before: "elements (foldl parseLine NewDTDParser twoDecls) ''a'' \<noteq> None"
    by code_simp
  have order: "elementOrder (foldl parseLine NewDTDParser twoDecls) = [''a'', ''c'']"
    by code_simp
  show ?thesis
    using element_declared_once [OF h, of twoDecls] h before
    by (simp add: t order)
qed

section \<open>Attaching the attributes\<close>

text \<open>
  The loop over \<open>p.attributes\<close> writes to each element that has an entry the attributes of
  that entry, whatever the order in which the keys are visited.
\<close>

lemma associate_fold:
  "foldl (\<lambda>els elementName.
              case attributes p elementName of
                None \<Rightarrow> els
              | Some attrs \<Rightarrow>
                  (case els elementName of
                     None \<Rightarrow> els
                   | Some element \<Rightarrow> els(elementName \<mapsto> element\<lparr>Attributes := attrs\<rparr>)))
           els ks n =
   (if n \<in> set ks
    then (case els n of
            None \<Rightarrow> None
          | Some e \<Rightarrow> Some (case attributes p n of None \<Rightarrow> e | Some attrs \<Rightarrow> e\<lparr>Attributes := attrs\<rparr>))
    else els n)"
  by (induction ks arbitrary: els) (auto split: option.splits)

lemma associate_pointwise:
  assumes "rangeOrder ks (attributes p)"
  shows "associate ks p n =
           (case elements p n of
              None \<Rightarrow> None
            | Some e \<Rightarrow> Some (case attributes p n of None \<Rightarrow> e | Some attrs \<Rightarrow> e\<lparr>Attributes := attrs\<rparr>))"
proof (cases "n \<in> set ks")
  case True
  then show ?thesis by (simp add: associate_def associate_fold)
next
  case False
  then have "attributes p n = None"
    using assms by (auto simp: rangeOrder_def)
  then show ?thesis using False
    by (simp add: associate_def associate_fold split: option.splits)
qed

lemma associate_order_free:
  assumes "rangeOrder ks1 (attributes p)" and "rangeOrder ks2 (attributes p)"
  shows "associate ks1 p = associate ks2 p"
  by (rule ext) (simp add: associate_pointwise [OF assms(1)] associate_pointwise [OF assms(2)])

section \<open>Attribute lists\<close>

text \<open>
  Claim C5. Two \<open><!ATTLIST x ...>\<close> statements for the same element \<open>x\<close>: after the first,
  the list recorded for \<open>x\<close> is what was recorded before followed by the attributes of the
  first statement; after the second, the attributes of the second statement follow
  those; nothing recorded earlier is overwritten. When \<open>x\<close> is declared, this list is the
  attribute list of \<open>x\<close> in the elements that \<open>ParseFile\<close> hands over at the end.
\<close>

theorem attlists_accumulate:
  assumes "attlistDecl (entities p) l1 = Some (x, attrs1)"
    and "attlistDecl (entities p) l2 = Some (x, attrs2)"
    and "elements p x = Some e"
    and "rangeOrder ks (attributes (parseAttributeList (parseAttributeList p l1) l2))"
  shows "attributes (parseAttributeList p l1) x = Some (attrsOf p x @ attrs1) \<and>
         attributes (parseAttributeList (parseAttributeList p l1) l2) x =
           Some (attrsOf p x @ attrs1 @ attrs2) \<and>
         map_option Attributes (associate ks (parseAttributeList (parseAttributeList p l1) l2) x) =
           Some (attrsOf p x @ attrs1 @ attrs2)"
proof -
  let ?p2 = "parseAttributeList (parseAttributeList p l1) l2"
  have one: "attributes (parseAttributeList p l1) x = Some (attrsOf p x @ attrs1)"
    using assms(1) by (simp add: parseAttributeList_def attrsOf_def split: option.splits)
  have two: "attributes ?p2 x = Some (attrsOf p x @ attrs1 @ attrs2)"
    using assms(1,2) by (simp add: parseAttributeList_def attrsOf_def split: option.splits)
  have "elements ?p2 x = Some e"
    using assms(3) by simp
  then have "associate ks ?p2 x = Some (e\<lparr>Attributes := attrsOf p x @ attrs1 @ attrs2\<rparr>)"
    using two by (simp add: associate_pointwise [OF assms(4)])
  then show ?thesis
    using one two by simp
qed

theorem attlists_accumulate_witness:
  "attlistDecl (entities declaredX) ''<!ATTLIST x a CDATA #REQUIRED>'' =
     Some (''x'', [\<lparr>AttrName = ''a'', Type = ''CDATA'', DefaultValue = [], Required = True\<rparr>]) \<and>
   attlistDecl (entities declaredX) ''<!ATTLIST x b ID #IMPLIED>'' =
     Some (''x'', [\<lparr>AttrName = ''b'', Type = ''ID'', DefaultValue = [], Required = False\<rparr>]) \<and>
   elements declaredX ''x'' = Some \<lparr>Name = ''x'', Content = ''(y)'', Attributes = []\<rparr> \<and>
   rangeOrder [''x''] (attributes (parseAttributeList (parseAttributeList declaredX ''<!ATTLIST x a CDATA #REQUIRED>'')
                 ''<!ATTLIST x b ID #IMPLIED>'')) \<and>
   map_option Attributes
     (associate [''x''] (parseAttributeList (parseAttributeList declaredX ''<!ATTLIST x a CDATA #REQUIRED>'')
                 ''<!ATTLIST x b ID #IMPLIED>'') ''x'') =
     Some [\<lparr>AttrName = ''a'', Type = ''CDATA'', DefaultValue = [], Required = True\<rparr>,
           \<lparr>AttrName = ''b'', Type = ''ID'', DefaultValue = [], Required = False\<rparr>]"
proof -
  have h1: "attlistDecl (entities declaredX) ''<!ATTLIST x a CDATA #REQUIRED>'' =
     Some (''x'', [\<lparr>AttrName = ''a'', Type = ''CDATA'', DefaultValue = [], Required = True\<rparr>])"
    by code_simp
  have h2: "attlistDecl (entities declaredX) ''<!ATTLIST x b ID #IMPLIED>'' =
     Some (''x'', [\<lparr>AttrName = ''b'', Type = ''ID'', DefaultValue = [], Required = False\<rparr>])"
    by code_simp
  have h3: "elements declaredX ''x'' = Some \<lparr>Name = ''x'', Content = ''(y)'', Attributes = []\<rparr>"
    by code_simp
  have none: "attributes declaredX = Map.empty"
    by (simp add: declaredX_def NewDTDParser_def)
  have h4: "rangeOrder [''x''] (attributes (parseAttributeList (parseAttributeList declaredX ''<!ATTLIST x a CDATA #REQUIRED>'')
                 ''<!ATTLIST x b ID #IMPLIED>''))"
    using h1 h2 by (simp add: rangeOrder_def parseAttributeList_def none)
  have old: "attrsOf declaredX ''x'' = []"
    by (simp add: attrsOf_def none)
  show ?thesis
    using attlists_accumulate [OF h1 h2 h3 h4] h1 h2 h3 h4 by (simp add: old)
qed

text \<open>
  Claim C3, at the input where the code departs from it. The entity value
  \<open>id CDATA #REQUIRED\<close> has no parenthesis, the search for the end of the type yields
  \<open>-1\<close>, and the default specification is read from part \<open>0\<close>, the attribute name: the
  attribute is not required and has the default value \<open>id\<close>, and the same comes out
  for \<open>id CDATA #IMPLIED\<close>. With the enumerated type of the specification's example the
  attribute \<open>status\<close> is required.
\<close>

theorem entity_with_plain_type:
  "map_option Attributes (associate [''x''] (scanLoop NewDTDParser [] plainEntityLines) ''x'') =
     Some [\<lparr>AttrName = ''id'', Type = ''string'', DefaultValue = ''id'', Required = False\<rparr>] \<and>
   map_option Attributes (associate [''x''] (scanLoop NewDTDParser [] impliedEntityLines) ''x'') =
     Some [\<lparr>AttrName = ''id'', Type = ''string'', DefaultValue = ''id'', Required = False\<rparr>] \<and>
   map_option Attributes (associate [''x''] (scanLoop NewDTDParser [] enumEntityLines) ''x'') =
     Some [\<lparr>AttrName = ''status'', Type = ''string'', DefaultValue = [], Required = True\<rparr>]"
  by code_simp

section \<open>Reading the file\<close>

text \<open>The loop of \<open>ParseFile\<close> handles the complete declarations one after the other.\<close>

lemma scanLoop_declarations: "scanLoop p cur ls = foldl parseLine p (declarations cur ls)"
  by (induction ls arbitrary: p cur) auto

lemma scanLoop_no_terminator:
  "\<forall>l \<in> set tail. \<not> HasSuffix (TrimSpace l) ''>'' \<Longrightarrow> scanLoop p cur tail = p"
  by (induction tail arbitrary: cur) simp_all

lemma scanLoop_append_tail:
  "\<forall>l \<in> set tail. \<not> HasSuffix (TrimSpace l) ''>'' \<Longrightarrow> scanLoop p cur (ls @ tail) = scanLoop p cur ls"
  by (induction ls arbitrary: p cur) (auto simp: scanLoop_no_terminator)

text \<open>
  Claim C7. When no line from the start of a declaration to the end of the input ends
  with \<open>>\<close>, these lines contribute nothing: the result is the result for the input
  without them, and \<open>ParseFile\<close> returns a result, not an error.
\<close>

theorem unterminated_declaration_dropped:
  assumes "\<forall>l \<in> set tail. \<not> HasSuffix (TrimSpace l) ''>''"
  shows "ParseFile p ks (Lines (ls @ tail)) = ParseFile p ks (Lines ls) \<and>
         \<not> isl (ParseFile p ks (Lines (ls @ tail)))"
  using assms by (simp add: ParseFile_def scanLoop_append_tail)

theorem unterminated_declaration_dropped_witness:
  "\<not> HasSuffix (TrimSpace ''<!ELEMENT c (d,'') ''>'' \<and> \<not> HasSuffix (TrimSpace ''   e)'') ''>'' \<and>
   ParseFile NewDTDParser [] (Lines ([''<!ELEMENT a (b)>''] @ cutOffTail)) =
     ParseFile NewDTDParser [] (Lines [''<!ELEMENT a (b)>'']) \<and>
   \<not> isl (ParseFile NewDTDParser [] (Lines ([''<!ELEMENT a (b)>''] @ cutOffTail)))"
proof -
  have l1: "\<not> HasSuffix (TrimSpace ''<!ELEMENT c (d,'') ''>''"
    and l2: "\<not> HasSuffix (TrimSpace ''   e)'') ''>''"
    by code_simp+
  then have h: "\<forall>l \<in> set cutOffTail. \<not> HasSuffix (TrimSpace l) ''>''"
    by (simp add: cutOffTail_def)
  show ?thesis
    using unterminated_declaration_dropped [OF h, of NewDTDParser "[]" "[''<!ELEMENT a (b)>'']"] l1 l2
    by blast
qed

section \<open>The parse result\<close>

lemma attrsOf_parseLine:
  "attrsOf (parseLine p d) n = attrsOf p n @ statementAttrs (entities p) [d] n"
  by (auto simp: parseLine_cases attrsOf_def parseAttributeList_def split: option.splits)

lemma statementAttrs_Cons:
  "statementAttrs ents (d # ds) n = statementAttrs ents [d] n @ statementAttrs (entitiesAfter ents d) ds n"
  using not_entity_if_attlist [of "TrimSpace d"]
  by (auto simp: entitiesAfter_def split: option.splits)

lemma attrsOf_run:
  "attrsOf (foldl parseLine p ds) n = attrsOf p n @ statementAttrs (entities p) ds n"
proof (induction ds arbitrary: p)
  case Nil
  show ?case by simp
next
  case (Cons d ds)
  have "attrsOf (foldl parseLine p (d # ds)) n
          = attrsOf (parseLine p d) n @ statementAttrs (entities (parseLine p d)) ds n"
    using Cons.IH [of "parseLine p d"] by simp
  also have "\<dots> = attrsOf p n @ statementAttrs (entities p) [d] n @ statementAttrs (entitiesAfter (entities p) d) ds n"
    by (simp only: attrsOf_parseLine entities_parseLine append_assoc)
  also have "\<dots> = attrsOf p n @ statementAttrs (entities p) (d # ds) n"
    by (simp only: statementAttrs_Cons [symmetric])
  finally show ?case .
qed

lemma attlistDecl_name:
  "map_option fst (attlistDecl ents l) = map_option fst (attlistDecl ents' l)"
  by (simp add: attlistDecl_def split: list.splits)

lemma dom_attributes_parseLine:
  "dom (attributes (parseLine p d)) = dom (attributes p) \<union> set (attlistTargets [d])"
proof (cases "HasPrefix (TrimSpace d) ''<!ATTLIST''")
  case True
  show ?thesis
    using True attlistDecl_name [of "entities p" "TrimSpace d" Map.empty]
    by (auto simp: parseLine_cases parseAttributeList_def split: option.splits)
next
  case False
  then show ?thesis by (simp add: parseLine_cases)
qed

lemma attlistTargets_Cons: "attlistTargets (d # ds) = attlistTargets [d] @ attlistTargets ds"
  by (simp split: option.splits)

lemma dom_attributes_run:
  "dom (attributes (foldl parseLine p ds)) = dom (attributes p) \<union> set (attlistTargets ds)"
proof (induction ds arbitrary: p)
  case Nil
  show ?case by simp
next
  case (Cons d ds)
  have "dom (attributes (foldl parseLine p (d # ds)))
          = dom (attributes (parseLine p d)) \<union> set (attlistTargets ds)"
    using Cons.IH [of "parseLine p d"] by simp
  also have "\<dots> = dom (attributes p) \<union> set (attlistTargets [d] @ attlistTargets ds)"
    by (simp only: dom_attributes_parseLine set_append Un_assoc)
  finally show ?case
    by (simp only: attlistTargets_Cons [symmetric])
qed

lemma bareElements_parseLine: "bareElements p \<Longrightarrow> bareElements (parseLine p d)"
  by (auto simp: parseLine_cases bareElements_def parseElement_def Let_def split: option.splits)

lemma bareElements_run: "bareElements p \<Longrightarrow> bareElements (foldl parseLine p ds)"
  by (induction ds arbitrary: p) (simp_all add: bareElements_parseLine)

lemma bareElements_new: "bareElements NewDTDParser"
  by (simp add: bareElements_def NewDTDParser_def)

lemma dom_elements_parseLine:
  "dom (elements (parseLine p d)) = dom (elements p) \<union> set (declaredNames [d])"
  by (auto simp: parseLine_cases parseElement_def Let_def split: option.splits if_splits
      dest: not_element_if_attlist)

lemma declaredNames_Cons: "declaredNames (d # ds) = declaredNames [d] @ declaredNames ds"
  by (simp split: option.splits)

lemma dom_elements_run:
  "dom (elements (foldl parseLine p ds)) = dom (elements p) \<union> set (declaredNames ds)"
proof (induction ds arbitrary: p)
  case Nil
  show ?case by simp
next
  case (Cons d ds)
  have "dom (elements (foldl parseLine p (d # ds)))
          = dom (elements (parseLine p d)) \<union> set (declaredNames ds)"
    using Cons.IH [of "parseLine p d"] by simp
  also have "\<dots> = dom (elements p) \<union> set (declaredNames [d] @ declaredNames ds)"
    by (simp only: dom_elements_parseLine set_append Un_assoc)
  finally show ?case
    by (simp only: declaredNames_Cons [symmetric])
qed

lemma sample_targets: "attlistTargets (declarations [] sampleLines) = [''x'', ''x'', ''z'', ''w'']"
  by code_simp

lemma sample_range:
  "set ks = {''x'', ''z'', ''w''} \<Longrightarrow> distinct ks \<Longrightarrow>
   rangeOrder ks (attributes (scanLoop NewDTDParser [] sampleLines))"
  by (simp add: rangeOrder_def scanLoop_declarations dom_attributes_run sample_targets NewDTDParser_def)

text \<open>
  Claim C9. In the result that \<open>ParseFile\<close> returns for a new parser, the attributes of
  an element are the attribute definitions parsed from the \<open><!ATTLIST ...>\<close> statements
  that name it, concatenated in the order of the statements, wherever these stand
  relative to the \<open><!ELEMENT ...>\<close> declaration; every declared name has an entry; and a
  name without \<open><!ELEMENT ...>\<close> declaration has no entry and is not in the order, so
  that attribute definitions for it are absent from the result.
\<close>

theorem result_attributes:
  assumes "rangeOrder ks (attributes (scanLoop NewDTDParser [] ls))"
    and "ParseFile NewDTDParser ks (Lines ls) = Inr r"
  shows "(\<forall>n e. Elements r n = Some e \<longrightarrow>
            Attributes e = statementAttrs Map.empty (declarations [] ls) n) \<and>
         (\<forall>n. n \<in> set (declaredNames (declarations [] ls)) \<longrightarrow> Elements r n \<noteq> None) \<and>
         (\<forall>n. n \<notin> set (declaredNames (declarations [] ls)) \<longrightarrow>
            Elements r n = None \<and> n \<notin> set (Order r))"
proof -
  let ?ds = "declarations [] ls"
  let ?p = "foldl parseLine NewDTDParser ?ds"
  have p: "scanLoop NewDTDParser [] ls = ?p"
    by (rule scanLoop_declarations)
  have r: "r = \<lparr>Elements = associate ks ?p, Order = elementOrder ?p\<rparr>"
    using assms(2) by (simp add: ParseFile_def p)
  have range: "rangeOrder ks (attributes ?p)"
    using assms(1) by (simp only: p)
  have bare: "bareElements ?p"
    by (simp add: bareElements_run bareElements_new)
  have inv: "orderInv ?p"
    by (simp add: orderInv_run orderInv_new)
  have dom: "dom (elements ?p) = set (declaredNames ?ds)"
    by (simp add: dom_elements_run NewDTDParser_def)
  have attrs: "attrsOf ?p n = statementAttrs Map.empty ?ds n" for n
    by (simp add: attrsOf_run) (simp add: attrsOf_def NewDTDParser_def)
  have a: "Attributes e = statementAttrs Map.empty ?ds n" if "Elements r n = Some e" for n e
  proof -
    from that obtain e0 where e0: "elements ?p n = Some e0"
      and e: "e = (case attributes ?p n of None \<Rightarrow> e0 | Some as \<Rightarrow> e0\<lparr>Attributes := as\<rparr>)"
      by (auto simp: r associate_pointwise [OF range] split: option.splits)
    have "Attributes e0 = []"
      using bare e0 by (simp add: bareElements_def)
    then have "Attributes e = attrsOf ?p n"
      by (simp add: e attrsOf_def split: option.splits)
    then show ?thesis
      by (simp only: attrs)
  qed
  have b: "Elements r n \<noteq> None" if "n \<in> set (declaredNames ?ds)" for n
  proof -
    from that have "n \<in> dom (elements ?p)"
      by (simp add: dom)
    then show ?thesis
      by (auto simp: r associate_pointwise [OF range])
  qed
  have c: "Elements r n = None \<and> n \<notin> set (Order r)" if "n \<notin> set (declaredNames ?ds)" for n
  proof -
    from that have "n \<notin> dom (elements ?p)"
      by (simp add: dom)
    moreover have "set (elementOrder ?p) = dom (elements ?p)"
      using inv by (simp add: orderInv_def)
    ultimately show ?thesis
      by (auto simp: r associate_pointwise [OF range])
  qed
  show ?thesis
    using a b c by blast
qed

theorem result_attributes_witness:
  "rangeOrder [''x'', ''z'', ''w''] (attributes (scanLoop NewDTDParser [] sampleLines)) \<and>
   ParseFile NewDTDParser [''x'', ''z'', ''w''] (Lines sampleLines) = Inr sampleResult \<and>
   map_option Attributes (Elements sampleResult ''x'') =
     Some [\<lparr>AttrName = ''a'', Type = ''CDATA'', DefaultValue = [], Required = True\<rparr>,
           \<lparr>AttrName = ''b'', Type = ''ID'', DefaultValue = [], Required = False\<rparr>] \<and>
   Elements sampleResult ''w'' = None \<and> ''w'' \<notin> set (Order sampleResult)"
proof -
  have h1: "rangeOrder [''x'', ''z'', ''w''] (attributes (scanLoop NewDTDParser [] sampleLines))"
    by (rule sample_range) auto
  have h2: "ParseFile NewDTDParser [''x'', ''z'', ''w''] (Lines sampleLines) = Inr sampleResult"
    by (simp add: ParseFile_def sampleResult_def)
  have x: "Elements sampleResult ''x'' \<noteq> None"
    by code_simp
  have sx: "statementAttrs Map.empty (declarations [] sampleLines) ''x'' =
     [\<lparr>AttrName = ''a'', Type = ''CDATA'', DefaultValue = [], Required = True\<rparr>,
      \<lparr>AttrName = ''b'', Type = ''ID'', DefaultValue = [], Required = False\<rparr>]"
    by code_simp
  have w: "''w'' \<notin> set (declaredNames (declarations [] sampleLines))"
    by code_simp
  show ?thesis
    using result_attributes [OF h1 h2] h1 h2 x w
    by (auto simp: sx)
qed

section \<open>Two runs\<close>

text \<open>
  Claim C8. Two runs on the same input with the same package name give the same
  outcome: the same error, or no code, or the same generated text. The runs may differ
  only in the order in which the runtime ranges over \<open>p.attributes\<close>, \<open>ks1\<close> in one run
  and \<open>ks2\<close> in the other.
\<close>

theorem two_runs_equal:
  assumes "\<forall>ls. input = Lines ls \<longrightarrow>
             rangeOrder ks1 (attributes (scanLoop NewDTDParser [] ls)) \<and>
             rangeOrder ks2 (attributes (scanLoop NewDTDParser [] ls))"
  shows "mainCode pkg ks1 input = mainCode pkg ks2 input"
proof (cases input)
  case OpenFails
  then show ?thesis by (simp add: mainCode_def ParseFile_def)
next
  case (LinesThenError ls)
  then show ?thesis by (simp add: mainCode_def ParseFile_def)
next
  case (Lines ls)
  then have "associate ks1 (scanLoop NewDTDParser [] ls) = associate ks2 (scanLoop NewDTDParser [] ls)"
    using assms by (simp add: associate_order_free)
  then show ?thesis
    using Lines by (simp add: mainCode_def ParseFile_def)
qed

theorem two_runs_equal_witness:
  "rangeOrder [''x'', ''z'', ''w''] (attributes (scanLoop NewDTDParser [] sampleLines)) \<and>
   rangeOrder [''w'', ''z'', ''x''] (attributes (scanLoop NewDTDParser [] sampleLines)) \<and>
   mainCode ''main'' [''x'', ''z'', ''w''] (Lines sampleLines) =
   mainCode ''main'' [''w'', ''z'', ''x''] (Lines sampleLines)"
proof -
  have h1: "rangeOrder [''x'', ''z'', ''w''] (attributes (scanLoop NewDTDParser [] sampleLines))"
    by (rule sample_range) auto
  have h2: "rangeOrder [''w'', ''z'', ''x''] (attributes (scanLoop NewDTDParser [] sampleLines))"
    by (rule sample_range) auto
  have "\<forall>ls. Lines sampleLines = Lines ls \<longrightarrow>
          rangeOrder [''x'', ''z'', ''w''] (attributes (scanLoop NewDTDParser [] ls)) \<and>
          rangeOrder [''w'', ''z'', ''x''] (attributes (scanLoop NewDTDParser [] ls))"
    using h1 h2 by simp
  then show ?thesis
    using two_runs_equal [of "Lines sampleLines" "[''x'', ''z'', ''w'']" "[''w'', ''z'', ''x'']" "''main''"] h1 h2
    by blast
qed

end
